theory Spec2Isabelle
  imports Main "HOL-Library.Word"
begin

section \<open>The end-to-end encryption worker (worker.js)\<close>

text \<open>
  The worker keeps three module-level variables (\<open>currentCryptoKey\<close>, \<open>useCryptoOffset\<close>,
  \<open>currentKeyIdentifier\<close>) and two packet counters, and installs \<open>encodeFunction\<close> or
  \<open>decodeFunction\<close> as the transform of a TransformStream. The functions below follow the
  source statement by statement. What the platform supplies (the AES-GCM primitive of
  \<open>crypto.subtle\<close>, the random bytes of \<open>crypto.getRandomValues\<close>, the key produced by
  \<open>generateKey\<close>, and the moment at which a promise settles) is an argument of the model.
\<close>

subsection \<open>Data\<close>

type_synonym bytes = "8 word list"

text \<open>
  \<open>encodedFrame.type\<close>: an RTCEncodedVideoFrame carries one of the strings \<open>key\<close>,
  \<open>delta\<close>, \<open>empty\<close>; an RTCEncodedAudioFrame has no such property, so the source reads
  \<open>undefined\<close> there (\<open>NoType\<close>).
\<close>

datatype frame_type = KeyFrame | DeltaFrame | EmptyFrame | NoType

record encoded_frame =
  data :: bytes
  type :: frame_type
  timestamp :: nat
  synchronizationSource :: nat

text \<open>A CryptoKey object is opaque to the script; the model identifies it with its raw bytes.\<close>

datatype crypto_key = CryptoKey (raw: bytes)

text \<open>
  The module-level variables. \<open>currentCryptoKey\<close> is \<open>None\<close> while the variable is still
  \<open>undefined\<close>. The counters are JavaScript numbers that only ever count up from 0 in
  steps of one; they are natural numbers here.
\<close>

record worker_state =
  currentCryptoKey :: "crypto_key option"
  useCryptoOffset :: bool
  currentKeyIdentifier :: nat
  scount :: nat
  rcount :: nat

definition initial_state :: worker_state where
  "initial_state =
     \<lparr>currentCryptoKey = None, useCryptoOffset = True, currentKeyIdentifier = 0,
      scount = 0, rcount = 0\<rparr>"

subsection \<open>The offset table\<close>

text \<open>
  \<open>frameTypeToCryptoOffset[encodedFrame.type]\<close>: the object has the three own properties
  \<open>key\<close>, \<open>delta\<close> and \<open>undefined\<close>; indexing it with \<open>undefined\<close> reads the property named
  \<open>undefined\<close>, and indexing it with \<open>empty\<close> yields the value \<open>undefined\<close> (\<open>None\<close>).
\<close>

fun frameTypeToCryptoOffset :: "frame_type \<Rightarrow> int option" where
  "frameTypeToCryptoOffset KeyFrame = Some 10"
| "frameTypeToCryptoOffset DeltaFrame = Some 3"
| "frameTypeToCryptoOffset NoType = Some 1"
| "frameTypeToCryptoOffset EmptyFrame = None"

text \<open>
  \<open>const cryptoOffset = useCryptoOffset ? frameTypeToCryptoOffset[encodedFrame.type] : 0\<close>,
  the same line in both transforms.
\<close>

definition cryptoOffset :: "worker_state \<Rightarrow> frame_type \<Rightarrow> int option" where
  "cryptoOffset st t = (if useCryptoOffset st then frameTypeToCryptoOffset t else Some 0)"

subsection \<open>ArrayBuffer.prototype.slice\<close>

text \<open>
  \<open>buf.slice(begin, end)\<close>: an argument that is \<open>undefined\<close> (\<open>None\<close>) counts as 0 for
  \<open>begin\<close> and as the length for \<open>end\<close>; a negative argument counts from the end; both are
  clamped to the buffer, and an empty range gives an empty buffer. It never throws.
\<close>

definition relative_index :: "int \<Rightarrow> int \<Rightarrow> nat" where
  "relative_index len i = nat (if i < 0 then max (len + i) 0 else min i len)"

definition slice :: "'a list \<Rightarrow> int option \<Rightarrow> int option \<Rightarrow> 'a list" where
  "slice buf begin end =
     (let len = int (length buf);
          first = relative_index len (case begin of None \<Rightarrow> 0 | Some b \<Rightarrow> b);
          final = (case end of None \<Rightarrow> length buf | Some e \<Rightarrow> relative_index len e)
      in take (final - first) (drop first buf))"

subsection \<open>What the platform supplies\<close>

text \<open>
  \<open>crypto.subtle.encrypt\<close> and \<open>crypto.subtle.decrypt\<close> with \<open>{name: "AES-GCM", iv}\<close>:
  a function of key, iv and data whose promise is fulfilled with bytes (\<open>Some\<close>) or
  rejected (\<open>None\<close>). The primitive copies its input when it is called.
\<close>

type_synonym cipher = "crypto_key \<Rightarrow> bytes \<Rightarrow> bytes \<Rightarrow> bytes option"

text \<open>
  \<open>crypto.getRandomValues(new Uint8Array(n))\<close>: the platform writes a byte into each of
  the \<open>n\<close> positions; \<open>rnd i\<close> is the byte it writes at position \<open>i\<close> in this call.
\<close>

definition getRandomValues :: "(nat \<Rightarrow> 8 word) \<Rightarrow> nat \<Rightarrow> bytes" where
  "getRandomValues rnd n = map rnd [0..<n]"

subsection \<open>The transforms\<close>

text \<open>
  What a handler does to its collaborators: \<open>controller.enqueue(frame)\<close> and, in
  \<open>make_video_key\<close>, \<open>console.error(err)\<close>. The source calls nothing else.
\<close>

datatype action = Enqueue encoded_frame | ConsoleError

text \<open>
  A transform returns \<open>undefined\<close> in every path. \<open>Sync as\<close>: it performed \<open>as\<close> before
  returning. \<open>Async as\<close>: it started a cipher operation and returned; \<open>as\<close> is what the
  \<open>then\<close> callback performs once the promise settles. The callback is registered for
  fulfilment only and nothing handles a rejection, so a rejected promise performs nothing.
\<close>

datatype reaction = Sync "action list" | Async "action list"

definition on_settled :: "bytes option \<Rightarrow> (bytes \<Rightarrow> action list) \<Rightarrow> action list" where
  "on_settled result callback = (case result of None \<Rightarrow> [] | Some r \<Rightarrow> callback r)"

text \<open>The two slices of \<open>encodeFunction\<close>: \<open>(dataHeader, dataToEnc)\<close>.\<close>

definition encode_split :: "bytes \<Rightarrow> int option \<Rightarrow> bytes \<times> bytes" where
  "encode_split buf off = (slice buf (Some 0) off, slice buf off None)"

text \<open>The three slices of \<open>decodeFunction\<close>: \<open>(dataHeader, dataToDec, iv)\<close>.\<close>

definition decode_split :: "bytes \<Rightarrow> int option \<Rightarrow> bytes \<times> bytes \<times> bytes" where
  "decode_split buf off =
     (slice buf (Some 0) off,
      slice buf off (Some (int (length buf) - 12)),
      slice buf (Some (int (length buf) - 12)) None)"

definition encodeFunction ::
  "cipher \<Rightarrow> (nat \<Rightarrow> 8 word) \<Rightarrow> worker_state \<Rightarrow> encoded_frame \<Rightarrow> worker_state \<times> reaction" where
  "encodeFunction encrypt rnd st encodedFrame =
     (let st' = st\<lparr>scount := scount st + 1\<rparr> in
      case currentCryptoKey st of
        Some k \<Rightarrow>
          (case encode_split (data encodedFrame) (cryptoOffset st (type encodedFrame)) of
            (dataHeader, dataToEnc) \<Rightarrow>
              let iv = getRandomValues rnd 12 in
              (st', Async (on_settled (encrypt k iv dataToEnc)
                 (\<lambda>result. [Enqueue (encodedFrame\<lparr>data := dataHeader @ result @ iv\<rparr>)]))))
      | None \<Rightarrow> (st', Sync [Enqueue encodedFrame]))"

text \<open>
  \<open>decodeFunction\<close> also builds a DataView and reads a \<open>checksum\<close> from the last four bytes
  when the buffer is longer than four bytes; the value is never used and the read is in
  range, so it has no counterpart here.
\<close>

definition decodeFunction ::
  "cipher \<Rightarrow> worker_state \<Rightarrow> encoded_frame \<Rightarrow> worker_state \<times> reaction" where
  "decodeFunction decrypt st encodedFrame =
     (let st' = st\<lparr>rcount := rcount st + 1\<rparr> in
      case currentCryptoKey st of
        Some k \<Rightarrow>
          (case decode_split (data encodedFrame) (cryptoOffset st (type encodedFrame)) of
            (dataHeader, dataToDec, iv) \<Rightarrow>
              (st', Async (on_settled (decrypt k iv dataToDec)
                 (\<lambda>result. [Enqueue (encodedFrame\<lparr>data := dataHeader @ result\<rparr>)]))))
      | None \<Rightarrow> (st', Sync [Enqueue encodedFrame]))"

subsection \<open>The setCryptoKey message\<close>

text \<open>
  The \<open>setCryptoKey\<close> branch of \<open>onmessage\<close>. \<open>supplied\<close> is \<open>event.data.currentCryptoKey\<close>
  (\<open>None\<close> when the message has no such field). The test \<open>!==\<close> compares it with the
  worker's variable, which is \<open>undefined\<close> or a CryptoKey object made inside the worker: a
  value that arrived in a message is identical to it only when both are \<open>undefined\<close>.
  The handler starts \<open>make_video_key()\<close> and returns; the assignment
  \<open>currentCryptoKey = k\<close> runs later, in \<open>key_generated\<close>.
\<close>

definition setCryptoKey :: "string option \<Rightarrow> bool \<Rightarrow> worker_state \<Rightarrow> worker_state" where
  "setCryptoKey supplied flag st =
     (let st1 = (case (supplied, currentCryptoKey st) of
                   (None, None) \<Rightarrow> st
                 | _ \<Rightarrow> st\<lparr>currentKeyIdentifier := currentKeyIdentifier st + 1\<rparr>)
      in st1\<lparr>useCryptoOffset := flag\<rparr>)"

text \<open>
  The promise of \<open>generateKey\<close> settles: fulfilled with \<open>k\<close>, the \<open>then\<close> callback assigns
  it; rejected, \<open>make_video_key\<close> logs the error and its own promise never settles.
\<close>

definition key_generated :: "crypto_key option \<Rightarrow> worker_state \<Rightarrow> worker_state \<times> action list" where
  "key_generated result st =
     (case result of
        Some k \<Rightarrow> (st\<lparr>currentCryptoKey := Some k\<rparr>, [])
      | None \<Rightarrow> (st, [ConsoleError]))"

subsection \<open>The event loop\<close>

text \<open>
  One stream direction of the worker as a sequence of events. \<open>Chunk\<close>: the stream calls
  the transform with the next frame (it does so as soon as the previous call has
  returned, since the transform returns no promise). \<open>Settle i\<close>: the promise of the
  \<open>i\<close>-th cipher operation still outstanding settles and its callback runs. \<open>Message\<close>:
  a \<open>setCryptoKey\<close> message arrives. \<open>KeyGenerated\<close>: a pending \<open>generateKey\<close> settles.
  The \<open>encode\<close> and \<open>decode\<close> messages, which pipe a stream through one of the two
  transforms, are the choice of the transform \<open>tf\<close> that a run is given.
\<close>

datatype event =
  Chunk encoded_frame "nat \<Rightarrow> 8 word"
| Settle nat
| Message "string option" bool
| KeyGenerated "crypto_key option"

record loop_state =
  globals :: worker_state
  outstanding :: "action list list"
  keygens :: nat
  performed :: "action list"

type_synonym transform = "(nat \<Rightarrow> 8 word) \<Rightarrow> worker_state \<Rightarrow> encoded_frame \<Rightarrow> worker_state \<times> reaction"

fun step :: "transform \<Rightarrow> loop_state \<Rightarrow> event \<Rightarrow> loop_state" where
  "step tf s (Chunk fr rnd) =
     (case tf rnd (globals s) fr of
        (st', Sync as) \<Rightarrow> s\<lparr>globals := st', performed := performed s @ as\<rparr>
      | (st', Async as) \<Rightarrow> s\<lparr>globals := st', outstanding := outstanding s @ [as]\<rparr>)"
| "step tf s (Settle i) =
     (if i < length (outstanding s)
      then s\<lparr>outstanding := take i (outstanding s) @ drop (Suc i) (outstanding s),
             performed := performed s @ outstanding s ! i\<rparr>
      else s)"
| "step tf s (Message supplied flag) =
     s\<lparr>globals := setCryptoKey supplied flag (globals s), keygens := Suc (keygens s)\<rparr>"
| "step tf s (KeyGenerated result) =
     (if keygens s = 0 then s
      else (case key_generated result (globals s) of
              (st', as) \<Rightarrow> s\<lparr>globals := st', keygens := keygens s - 1,
                              performed := performed s @ as\<rparr>))"

definition run :: "transform \<Rightarrow> event list \<Rightarrow> loop_state \<Rightarrow> loop_state" where
  "run tf evs s = foldl (step tf) s evs"

definition encode_stream :: "cipher \<Rightarrow> transform" where
  "encode_stream encrypt = encodeFunction encrypt"

definition decode_stream :: "cipher \<Rightarrow> transform" where
  "decode_stream decrypt = (\<lambda>rnd. decodeFunction decrypt)"

definition start :: "worker_state \<Rightarrow> loop_state" where
  "start st = \<lparr>globals = st, outstanding = [], keygens = 0, performed = []\<rparr>"

text \<open>The frames handed downstream, in the order of the \<open>enqueue\<close> calls.\<close>

fun enqueued :: "action list \<Rightarrow> encoded_frame list" where
  "enqueued [] = []"
| "enqueued (Enqueue f # as) = f # enqueued as"
| "enqueued (ConsoleError # as) = enqueued as"

subsection \<open>A stand-in primitive for concrete runs\<close>

text \<open>
  An executable authenticated cipher with the interface of AES-GCM as the worker uses it:
  the ciphertext is the body followed by a 16-byte tag, and decryption rejects an input
  shorter than the tag or whose tag does not match. It is not AES; it serves to run the
  transforms on concrete frames.
\<close>

definition mock_pad :: "crypto_key \<Rightarrow> bytes \<Rightarrow> 8 word" where
  "mock_pad k iv = sum_list (raw k @ iv)"

definition mock_tag :: "crypto_key \<Rightarrow> bytes \<Rightarrow> bytes \<Rightarrow> bytes" where
  "mock_tag k iv body = replicate 16 (sum_list (raw k @ iv @ body))"

definition mock_encrypt :: cipher where
  "mock_encrypt k iv body = Some (map (\<lambda>b. b + mock_pad k iv) body @ mock_tag k iv body)"

definition mock_decrypt :: cipher where
  "mock_decrypt k iv c =
     (if length c < 16 then None
      else let body = map (\<lambda>b. b - mock_pad k iv) (take (length c - 16) c)
           in if drop (length c - 16) c = mock_tag k iv body then Some body else None)"

text \<open>A primitive whose promise is always rejected.\<close>

definition rejecting :: cipher where
  "rejecting k iv body = None"

subsection \<open>Auxiliary notions for the statements\<close>

text \<open>The part of the globals that the spec calls the key-epoch state.\<close>

definition key_epoch :: "worker_state \<Rightarrow> crypto_key option \<times> nat \<times> bool" where
  "key_epoch st = (currentCryptoKey st, currentKeyIdentifier st, useCryptoOffset st)"

text \<open>The only event that assigns \<open>currentCryptoKey\<close>.\<close>

fun installs_key :: "event \<Rightarrow> bool" where
  "installs_key (KeyGenerated (Some k)) = True"
| "installs_key _ = False"

text \<open>The frames submitted by a sequence of events, in order.\<close>

fun chunks :: "event list \<Rightarrow> encoded_frame list" where
  "chunks [] = []"
| "chunks (Chunk fr rnd # evs) = fr # chunks evs"
| "chunks (_ # evs) = chunks evs"

text \<open>A transform that, without a key, enqueues its frame unchanged before returning.\<close>

definition passes_through :: "transform \<Rightarrow> bool" where
  "passes_through tf = (\<forall>rnd st fr. currentCryptoKey st = None \<longrightarrow>
      (\<exists>st'. tf rnd st fr = (st', Sync [Enqueue fr]) \<and> currentCryptoKey st' = None))"

text \<open>A transform that leaves key, key identifier and flag alone.\<close>

definition keeps_key_epoch :: "transform \<Rightarrow> bool" where
  "keeps_key_epoch tf = (\<forall>rnd st fr. key_epoch (fst (tf rnd st fr)) = key_epoch st)"

text \<open>
  A primitive that, like AES-GCM with a 128-bit tag, rejects a ciphertext shorter than
  the tag.
\<close>

definition rejects_below_tag :: "cipher \<Rightarrow> bool" where
  "rejects_below_tag dec = (\<forall>k iv c. length c < 16 \<longrightarrow> dec k iv c = None)"

text \<open>Every settling event settles the oldest outstanding operation.\<close>

fun in_order :: "event list \<Rightarrow> bool" where
  "in_order [] = True"
| "in_order (Settle i # evs) = (i = 0 \<and> in_order evs)"
| "in_order (_ # evs) = in_order evs"

fun actions :: "reaction \<Rightarrow> action list" where
  "actions (Sync as) = as"
| "actions (Async as) = as"

text \<open>
  The frames already handed downstream followed by those that the outstanding
  operations will hand downstream, oldest operation first.
\<close>

definition results :: "loop_state \<Rightarrow> encoded_frame list" where
  "results s = enqueued (performed s) @ enqueued (concat (outstanding s))"

text \<open>
  The transformed frames of a sequence of events in submission order: for each
  submitted frame, what the transform called at that moment enqueues for it.
\<close>

fun yields :: "transform \<Rightarrow> loop_state \<Rightarrow> event list \<Rightarrow> encoded_frame list" where
  "yields tf s [] = []"
| "yields tf s (Chunk fr rnd # evs) =
     enqueued (actions (snd (tf rnd (globals s) fr))) @ yields tf (step tf s (Chunk fr rnd)) evs"
| "yields tf s (ev # evs) = yields tf (step tf s ev) evs"

text \<open>
  A transform that keeps the key and answers synchronously exactly when there is no key.
\<close>

definition sync_only_without_key :: "transform \<Rightarrow> bool" where
  "sync_only_without_key tf = (\<forall>rnd st fr.
      currentCryptoKey (fst (tf rnd st fr)) = currentCryptoKey st \<and>
      (case snd (tf rnd st fr) of Sync as \<Rightarrow> currentCryptoKey st = None
                                 | Async as \<Rightarrow> currentCryptoKey st \<noteq> None))"

text \<open>While there is no key, no operation is outstanding.\<close>

definition settled_before_sync :: "loop_state \<Rightarrow> bool" where
  "settled_before_sync s = (currentCryptoKey (globals s) = None \<longrightarrow> outstanding s = [])"

subsection \<open>Concrete inputs\<close>

definition example_key :: crypto_key where
  "example_key = CryptoKey [7]"

definition keyed_state :: worker_state where
  "keyed_state = initial_state\<lparr>currentCryptoKey := Some example_key\<rparr>"

definition counting :: "nat \<Rightarrow> 8 word" where
  "counting i = of_nat i"

definition video_frame :: encoded_frame where
  "video_frame = \<lparr>data = [1, 2, 3, 4, 5, 6, 7, 8, 9, 10, 11, 12], type = KeyFrame,
     timestamp = 100, synchronizationSource = 1\<rparr>"

definition audio_frame :: encoded_frame where
  "audio_frame = \<lparr>data = [120, 5, 6], type = NoType, timestamp = 200,
     synchronizationSource = 2\<rparr>"

definition short_key_frame :: encoded_frame where
  "short_key_frame = \<lparr>data = [1, 2, 3, 4], type = KeyFrame, timestamp = 300,
     synchronizationSource = 1\<rparr>"

definition short_key_envelope :: encoded_frame where
  "short_key_envelope = short_key_frame\<lparr>data :=
     [1, 2, 3, 4] @ replicate 16 73 @ [0, 1, 2, 3, 4, 5, 6, 7, 8, 9, 10, 11]\<rparr>"

text \<open>A video frame of type \<open>empty\<close>, which carries no data, and its envelope.\<close>

definition empty_frame :: encoded_frame where
  "empty_frame = \<lparr>data = [], type = EmptyFrame, timestamp = 600,
     synchronizationSource = 1\<rparr>"

definition empty_envelope :: encoded_frame where
  "empty_envelope = empty_frame\<lparr>data :=
     replicate 16 73 @ [0, 1, 2, 3, 4, 5, 6, 7, 8, 9, 10, 11]\<rparr>"

definition short_delta_frame :: encoded_frame where
  "short_delta_frame = \<lparr>data = [9, 8], type = DeltaFrame, timestamp = 400,
     synchronizationSource = 1\<rparr>"

definition truncated_frame :: encoded_frame where
  "truncated_frame = \<lparr>data = [1, 2, 3, 4, 5, 6, 7, 8], type = NoType, timestamp = 500,
     synchronizationSource = 2\<rparr>"

text \<open>The envelope of \<open>video_frame\<close> under the stand-in primitive, and a corrupted copy.\<close>

definition video_envelope :: encoded_frame where
  "video_envelope = video_frame\<lparr>data := [1, 2, 3, 4, 5, 6, 7, 8, 9, 10] @
     ([84, 85] @ replicate 16 96) @ [0, 1, 2, 3, 4, 5, 6, 7, 8, 9, 10, 11]\<rparr>"

definition tampered_envelope :: encoded_frame where
  "tampered_envelope = video_frame\<lparr>data := [1, 2, 3, 4, 5, 6, 7, 8, 9, 10] @
     ([84, 86] @ replicate 16 96) @ [0, 1, 2, 3, 4, 5, 6, 7, 8, 9, 10, 11]\<rparr>"

lemmas example_defs = keyed_state_def initial_state_def video_frame_def audio_frame_def
  short_key_frame_def short_key_envelope_def short_delta_frame_def example_key_def counting_def
  truncated_frame_def video_envelope_def tampered_envelope_def empty_frame_def
  empty_envelope_def

lemmas transform_defs = encodeFunction_def decodeFunction_def cryptoOffset_def encode_split_def
  decode_split_def slice_def relative_index_def getRandomValues_def on_settled_def Let_def

lemmas mock_defs = mock_encrypt_def mock_decrypt_def mock_pad_def mock_tag_def

lemmas loop_defs = run_def start_def encode_stream_def decode_stream_def

section \<open>Basic facts\<close>

lemma slice_prefix: "0 \<le> off \<Longrightarrow> slice buf (Some 0) (Some off) = take (nat off) buf"
  by (simp add: slice_def relative_index_def min_def Let_def)

lemma slice_suffix: "0 \<le> off \<Longrightarrow> slice buf (Some off) None = drop (nat off) buf"
  by (simp add: slice_def relative_index_def min_def Let_def)

lemma slice_middle:
  "0 \<le> off \<Longrightarrow> off + 12 \<le> int (length buf) \<Longrightarrow>
   slice buf (Some off) (Some (int (length buf) - 12)) =
     take (length buf - 12 - nat off) (drop (nat off) buf)"
  by (simp add: slice_def relative_index_def min_def nat_diff_distrib' Let_def)

lemma slice_nonce:
  "12 \<le> length buf \<Longrightarrow>
   slice buf (Some (int (length buf) - 12)) None = drop (length buf - 12) buf"
  by (simp add: slice_def relative_index_def min_def nat_diff_distrib' Let_def)

lemma slice_short:
  "0 \<le> off \<Longrightarrow> int (length buf) < off + 12 \<Longrightarrow>
   length (slice buf (Some off) (Some (int (length buf) - 12))) < 12"
  by (auto simp add: slice_def relative_index_def min_def max_def Let_def)

lemma cryptoOffset_nonneg: "cryptoOffset st t = Some off \<Longrightarrow> 0 \<le> off"
  by (cases t) (auto simp add: cryptoOffset_def split: if_splits)

lemma length_getRandomValues: "length (getRandomValues rnd n) = n"
  by (simp add: getRandomValues_def)

lemma enqueued_append: "enqueued (as @ bs) = enqueued as @ enqueued bs"
  by (induction as rule: enqueued.induct) simp_all

lemma chunks_append: "chunks (xs @ ys) = chunks xs @ chunks ys"
  by (induction xs rule: chunks.induct) simp_all

lemma encodeFunction_globals:
  "fst (encodeFunction enc rnd st fr) = st\<lparr>scount := scount st + 1\<rparr>"
  by (simp add: encodeFunction_def Let_def split: option.split prod.split)

lemma decodeFunction_globals:
  "fst (decodeFunction dec st fr) = st\<lparr>rcount := rcount st + 1\<rparr>"
  by (simp add: decodeFunction_def Let_def split: option.split prod.split)

lemma encodeFunction_no_key:
  "currentCryptoKey st = None \<Longrightarrow>
   encodeFunction enc rnd st fr = (st\<lparr>scount := scount st + 1\<rparr>, Sync [Enqueue fr])"
  by (simp add: encodeFunction_def)

lemma decodeFunction_no_key:
  "currentCryptoKey st = None \<Longrightarrow>
   decodeFunction dec st fr = (st\<lparr>rcount := rcount st + 1\<rparr>, Sync [Enqueue fr])"
  by (simp add: decodeFunction_def)

lemma setCryptoKey_key:
  "currentCryptoKey (setCryptoKey supplied flag st) = currentCryptoKey st"
  by (simp add: setCryptoKey_def split: option.split)

lemma step_chunk_globals: "globals (step tf s (Chunk fr rnd)) = fst (tf rnd (globals s) fr)"
  by (simp split: prod.split reaction.split)

section \<open>Passthrough without a key\<close>

lemma passes_through_encode: "passes_through (encode_stream enc)"
  by (simp add: passes_through_def encode_stream_def encodeFunction_no_key)

lemma passes_through_decode: "passes_through (decode_stream dec)"
  by (simp add: passes_through_def decode_stream_def decodeFunction_no_key)

lemma step_passthrough:
  assumes "passes_through tf" "currentCryptoKey (globals s) = None" "outstanding s = []"
    "\<not> installs_key ev"
  shows "currentCryptoKey (globals (step tf s ev)) = None \<and> outstanding (step tf s ev) = [] \<and>
         enqueued (performed (step tf s ev)) = enqueued (performed s) @ chunks [ev]"
proof (cases ev)
  case (Chunk fr rnd)
  from assms(1,2) obtain st' where "tf rnd (globals s) fr = (st', Sync [Enqueue fr])"
    "currentCryptoKey st' = None" unfolding passes_through_def by blast
  with Chunk assms(3) show ?thesis by (simp add: enqueued_append)
next
  case (Settle i)
  with assms show ?thesis by simp
next
  case (Message supplied flag)
  with assms show ?thesis by (simp add: setCryptoKey_key)
next
  case (KeyGenerated r)
  with assms(4) have "r = None" by (cases r) simp_all
  with KeyGenerated assms show ?thesis by (simp add: key_generated_def enqueued_append)
qed

lemma run_passthrough:
  assumes "passes_through tf"
  shows "currentCryptoKey (globals s) = None \<Longrightarrow> outstanding s = [] \<Longrightarrow>
         \<not> list_ex installs_key evs \<Longrightarrow>
         enqueued (performed (run tf evs s)) = enqueued (performed s) @ chunks evs"
proof (induction evs arbitrary: s)
  case Nil
  then show ?case by (simp add: run_def)
next
  case (Cons ev evs)
  from Cons.prems have ev: "\<not> installs_key ev" and evs: "\<not> list_ex installs_key evs"
    by simp_all
  from step_passthrough[OF assms Cons.prems(1,2) ev]
  have 1: "currentCryptoKey (globals (step tf s ev)) = None" "outstanding (step tf s ev) = []"
    and 2: "enqueued (performed (step tf s ev)) = enqueued (performed s) @ chunks [ev]"
    by simp_all
  have "enqueued (performed (run tf evs (step tf s ev))) =
        enqueued (performed (step tf s ev)) @ chunks evs"
    by (rule Cons.IH[OF 1 evs])
  moreover have "chunks (ev # evs) = chunks [ev] @ chunks evs"
    using chunks_append[of "[ev]" evs] by simp
  ultimately show ?case using 2 by (simp add: run_def)
qed

text \<open>
  C5. While \<open>currentCryptoKey\<close> is still undefined, \<open>encodeFunction\<close> and \<open>decodeFunction\<close>
  each enqueue the very frame they were given, before returning, and change nothing but
  their packet counter; over any sequence of events in which no generated key is
  assigned, a stream of either direction hands downstream exactly the submitted frames,
  in order.
\<close>

theorem passthrough_without_key:
  assumes "currentCryptoKey st = None" and "\<not> list_ex installs_key evs"
  shows "encodeFunction enc rnd st fr = (st\<lparr>scount := scount st + 1\<rparr>, Sync [Enqueue fr]) \<and>
         decodeFunction dec st fr = (st\<lparr>rcount := rcount st + 1\<rparr>, Sync [Enqueue fr]) \<and>
         enqueued (performed (run (encode_stream enc) evs (start st))) = chunks evs \<and>
         enqueued (performed (run (decode_stream dec) evs (start st))) = chunks evs"
proof -
  have s: "currentCryptoKey (globals (start st)) = None" "outstanding (start st) = []"
    "enqueued (performed (start st)) = []"
    using assms(1) by (simp_all add: start_def)
  have "enqueued (performed (run (encode_stream enc) evs (start st))) = chunks evs"
    using run_passthrough[OF passes_through_encode s(1,2) assms(2)] s(3) by simp
  moreover have "enqueued (performed (run (decode_stream dec) evs (start st))) = chunks evs"
    using run_passthrough[OF passes_through_decode s(1,2) assms(2)] s(3) by simp
  ultimately show ?thesis
    using assms(1) by (simp add: encodeFunction_no_key decodeFunction_no_key)
qed

theorem passthrough_without_key_witness:
  "currentCryptoKey initial_state = None \<and>
   \<not> list_ex installs_key
       [Chunk video_frame counting, Message (Some ''secret'') False, Chunk audio_frame counting] \<and>
   encodeFunction mock_encrypt counting initial_state video_frame =
     (initial_state\<lparr>scount := 1\<rparr>, Sync [Enqueue video_frame]) \<and>
   decodeFunction mock_decrypt initial_state video_frame =
     (initial_state\<lparr>rcount := 1\<rparr>, Sync [Enqueue video_frame]) \<and>
   enqueued (performed (run (encode_stream mock_encrypt)
       [Chunk video_frame counting, Message (Some ''secret'') False, Chunk audio_frame counting]
       (start initial_state))) = [video_frame, audio_frame] \<and>
   enqueued (performed (run (decode_stream mock_decrypt)
       [Chunk video_frame counting, Message (Some ''secret'') False, Chunk audio_frame counting]
       (start initial_state))) = [video_frame, audio_frame]"
  using passthrough_without_key[of initial_state
      "[Chunk video_frame counting, Message (Some ''secret'') False, Chunk audio_frame counting]"
      mock_encrypt counting video_frame mock_decrypt]
  by (simp add: initial_state_def)

section \<open>The clear-header table\<close>

text \<open>
  C7 (as the code has it). With the flag on, the offset is 10 for a key frame, 3 for a
  delta frame and 1 for a frame without a type; with the flag off it is 0 for every
  type. The lookup is a pure function and never throws, but for the type \<open>empty\<close>, which
  the table does not list, it yields \<open>undefined\<close> and not a default byte count.
\<close>

theorem clear_header_table:
  "cryptoOffset (st\<lparr>useCryptoOffset := True\<rparr>) KeyFrame = Some 10 \<and>
   cryptoOffset (st\<lparr>useCryptoOffset := True\<rparr>) DeltaFrame = Some 3 \<and>
   cryptoOffset (st\<lparr>useCryptoOffset := True\<rparr>) NoType = Some 1 \<and>
   cryptoOffset (st\<lparr>useCryptoOffset := True\<rparr>) EmptyFrame = None \<and>
   cryptoOffset (st\<lparr>useCryptoOffset := False\<rparr>) t = Some 0"
  by (simp add: cryptoOffset_def)

text \<open>
  C7 as stated fails: in the initial state (flag on) the type \<open>empty\<close> has no offset.
\<close>

theorem clear_header_default_counterexample:
  "cryptoOffset initial_state EmptyFrame = None"
  by (simp add: cryptoOffset_def initial_state_def)

section \<open>Frame effect of the transforms\<close>

text \<open>
  C10. A call of \<open>encodeFunction\<close> or \<open>decodeFunction\<close> leaves the current key, the key
  identifier and the offset flag as they were, and so does every event of a stream other
  than the two of key installation: a submitted frame and the settling of a cipher
  operation.
\<close>

theorem transforms_keep_key_epoch:
  "key_epoch (fst (encodeFunction enc rnd st fr)) = key_epoch st \<and>
   key_epoch (fst (decodeFunction dec st fr)) = key_epoch st \<and>
   key_epoch (globals (step (encode_stream enc) s (Chunk fr rnd))) = key_epoch (globals s) \<and>
   key_epoch (globals (step (decode_stream dec) s (Chunk fr rnd))) = key_epoch (globals s) \<and>
   key_epoch (globals (step tf s (Settle i))) = key_epoch (globals s)"
proof -
  have "globals (step (encode_stream enc) s (Chunk fr rnd)) =
        fst (encodeFunction enc rnd (globals s) fr)"
    using step_chunk_globals[of "encode_stream enc" s fr rnd] by (simp only: encode_stream_def)
  moreover have "globals (step (decode_stream dec) s (Chunk fr rnd)) =
        fst (decodeFunction dec (globals s) fr)"
    using step_chunk_globals[of "decode_stream dec" s fr rnd] by (simp only: decode_stream_def)
  ultimately show ?thesis
    by (simp add: encodeFunction_globals decodeFunction_globals key_epoch_def)
qed

section \<open>Envelope layout and round trip\<close>

lemma counting_iv: "getRandomValues counting 12 = [0, 1, 2, 3, 4, 5, 6, 7, 8, 9, 10, 11]"
  by (simp add: getRandomValues_def counting_def upt_rec)

lemma cryptoOffset_le_10: "cryptoOffset st t = Some off \<Longrightarrow> off \<le> 10"
  by (cases t) (auto simp add: cryptoOffset_def split: if_splits)

lemma encode_split_offset:
  "0 \<le> off \<Longrightarrow> encode_split buf (Some off) = (take (nat off) buf, drop (nat off) buf)"
  by (simp add: encode_split_def slice_prefix slice_suffix)

lemma decode_split_long:
  assumes "0 \<le> off" "off + 12 \<le> int (length buf)"
  shows "decode_split buf (Some off) =
     (take (nat off) buf, take (length buf - 12 - nat off) (drop (nat off) buf),
      drop (length buf - 12) buf)"
proof -
  from assms have "12 \<le> length buf" by simp
  with assms show ?thesis
    by (simp add: decode_split_def slice_prefix slice_middle slice_nonce)
qed

lemma decode_split_envelope:
  assumes "0 \<le> off" "off \<le> int (length payload)" "length iv = 12"
  shows "decode_split (take (nat off) payload @ ct @ iv) (Some off) =
           (take (nat off) payload, ct, iv)"
proof -
  let ?h = "take (nat off) payload"
  have h: "length ?h = nat off" using assms(1,2) by simp
  have len: "length (?h @ ct @ iv) = nat off + length ct + 12" using h assms(3) by simp
  have "off + 12 \<le> int (length (?h @ ct @ iv))" using len assms(1) by simp
  from decode_split_long[OF assms(1) this]
  show ?thesis using h assms(3) by (simp add: len del: length_take)
qed

lemma encodeFunction_keyed:
  assumes "currentCryptoKey st = Some k" "cryptoOffset st (type fr) = Some off"
  shows "encodeFunction enc rnd st fr =
     (st\<lparr>scount := scount st + 1\<rparr>,
      Async (on_settled (enc k (getRandomValues rnd 12) (drop (nat off) (data fr)))
        (\<lambda>result. [Enqueue (fr\<lparr>data :=
            take (nat off) (data fr) @ result @ getRandomValues rnd 12\<rparr>)])))"
  using assms cryptoOffset_nonneg[OF assms(2)]
  by (simp add: encodeFunction_def encode_split_offset Let_def)

lemma decodeFunction_keyed:
  assumes "currentCryptoKey st = Some k"
  shows "decodeFunction dec st fr =
     (st\<lparr>rcount := rcount st + 1\<rparr>,
      (case decode_split (data fr) (cryptoOffset st (type fr)) of
         (dataHeader, dataToDec, iv) \<Rightarrow>
           Async (on_settled (dec k iv dataToDec)
             (\<lambda>result. [Enqueue (fr\<lparr>data := dataHeader @ result\<rparr>)]))))"
  using assms by (simp add: decodeFunction_def Let_def split: prod.split)

text \<open>
  C4 (as the code has it). When the primitive fulfils with ciphertext \<open>ct\<close>, the enqueued
  envelope is the clamped header slice, then \<open>ct\<close>, then the 12-byte iv, and the frame's
  other fields are untouched. For a payload of at least \<open>off\<close> bytes the first \<open>off\<close>
  bytes of the envelope are the first \<open>off\<close> bytes of the payload, where \<open>off\<close> is 10, 3
  and 1 for key, delta and untyped frames while the flag is on.
\<close>

theorem envelope_layout:
  assumes "currentCryptoKey st = Some k"
      and "cryptoOffset st (type fr) = Some off"
      and "enc k (getRandomValues rnd 12) (drop (nat off) (data fr)) = Some ct"
  shows "snd (encodeFunction enc rnd st fr) =
           Async [Enqueue (fr\<lparr>data := take (nat off) (data fr) @ ct @ getRandomValues rnd 12\<rparr>)] \<and>
         length (getRandomValues rnd 12) = 12 \<and>
         (off \<le> int (length (data fr)) \<longrightarrow>
            take (nat off) (take (nat off) (data fr) @ ct @ getRandomValues rnd 12) =
            take (nat off) (data fr)) \<and>
         (useCryptoOffset st \<and> type fr = KeyFrame \<longrightarrow> off = 10) \<and>
         (useCryptoOffset st \<and> type fr = DeltaFrame \<longrightarrow> off = 3) \<and>
         (useCryptoOffset st \<and> type fr = NoType \<longrightarrow> off = 1)"
proof -
  have "snd (encodeFunction enc rnd st fr) =
          Async [Enqueue (fr\<lparr>data := take (nat off) (data fr) @ ct @ getRandomValues rnd 12\<rparr>)]"
    by (simp add: encodeFunction_keyed[OF assms(1,2)] assms(3) on_settled_def)
  moreover have "off \<le> int (length (data fr)) \<longrightarrow>
            take (nat off) (take (nat off) (data fr) @ ct @ getRandomValues rnd 12) =
            take (nat off) (data fr)"
    using cryptoOffset_nonneg[OF assms(2)] by simp
  moreover have "(useCryptoOffset st \<and> type fr = KeyFrame \<longrightarrow> off = 10) \<and>
         (useCryptoOffset st \<and> type fr = DeltaFrame \<longrightarrow> off = 3) \<and>
         (useCryptoOffset st \<and> type fr = NoType \<longrightarrow> off = 1)"
    using assms(2) by (auto simp add: cryptoOffset_def)
  ultimately show ?thesis by (simp add: length_getRandomValues)
qed

theorem envelope_layout_witness:
  "currentCryptoKey keyed_state = Some example_key \<and>
   cryptoOffset keyed_state (type video_frame) = Some 10 \<and>
   mock_encrypt example_key (getRandomValues counting 12) (drop (nat 10) (data video_frame)) =
     Some ([84, 85] @ replicate 16 96) \<and>
   snd (encodeFunction mock_encrypt counting keyed_state video_frame) =
     Async [Enqueue (video_frame\<lparr>data := [1, 2, 3, 4, 5, 6, 7, 8, 9, 10] @
        ([84, 85] @ replicate 16 96) @ [0, 1, 2, 3, 4, 5, 6, 7, 8, 9, 10, 11]\<rparr>)] \<and>
   take 10 ([1, 2, 3, 4, 5, 6, 7, 8, 9, 10] @ ([84, 85] @ replicate 16 96) @
        [0, 1, 2, 3, 4, 5, 6, 7, 8, 9, 10, 11 :: 8 word]) = take 10 (data video_frame)"
proof -
  have 1: "currentCryptoKey keyed_state = Some example_key"
    by (simp add: example_defs)
  have 2: "cryptoOffset keyed_state (type video_frame) = Some 10"
    by (simp add: example_defs cryptoOffset_def)
  have 3: "mock_encrypt example_key (getRandomValues counting 12)
             (drop (nat 10) (data video_frame)) = Some ([84, 85] @ replicate 16 96)"
    by (simp add: counting_iv video_frame_def example_key_def mock_defs)
  have 4: "take (nat 10) (data video_frame) = [1, 2, 3, 4, 5, 6, 7, 8, 9, 10]"
    by (simp add: video_frame_def)
  show ?thesis
    using envelope_layout[where st = keyed_state and k = example_key and fr = video_frame
        and off = 10 and enc = mock_encrypt and rnd = counting
        and ct = "[84, 85] @ replicate 16 96"] 1 2 3 4
    by (simp add: counting_iv video_frame_def)
qed

text \<open>
  C4 as stated fails for a payload shorter than the header length: a delta frame of two
  bytes gives an envelope whose first three bytes are the two payload bytes and one
  byte of ciphertext.
\<close>

theorem header_exposure_short_payload_counterexample:
  "snd (encodeFunction mock_encrypt counting keyed_state short_delta_frame) =
     Async [Enqueue (short_delta_frame\<lparr>data :=
        [9, 8] @ replicate 16 73 @ [0, 1, 2, 3, 4, 5, 6, 7, 8, 9, 10, 11]\<rparr>)] \<and>
   take 3 ([9, 8] @ replicate 16 73 @ [0, 1, 2, 3, 4, 5, 6, 7, 8, 9, 10, 11 :: 8 word]) = [9, 8, 73] \<and>
   take 3 (data short_delta_frame) = [9, 8]"
  by (simp add: example_defs transform_defs mock_defs upt_rec)

text \<open>
  C1 (as the code has it). With the same key and flag on both sides, a frame whose type
  has an offset \<open>off\<close> in the table and whose payload has at least \<open>off\<close> bytes makes the
  round trip: if the primitive encrypts the body to \<open>ct\<close> and decrypts \<open>ct\<close> under the same
  iv back to the body, \<open>encodeFunction\<close> enqueues an envelope from which \<open>decodeFunction\<close>
  enqueues the original frame.
\<close>

theorem roundtrip:
  assumes key: "currentCryptoKey st = Some k" and key': "currentCryptoKey st' = Some k"
      and flag: "useCryptoOffset st' = useCryptoOffset st"
      and off: "cryptoOffset st (type fr) = Some off"
      and long: "off \<le> int (length (data fr))"
      and enc: "enc k (getRandomValues rnd 12) (drop (nat off) (data fr)) = Some ct"
      and dec: "dec k (getRandomValues rnd 12) ct = Some (drop (nat off) (data fr))"
  shows "snd (encodeFunction enc rnd st fr) =
           Async [Enqueue (fr\<lparr>data := take (nat off) (data fr) @ ct @ getRandomValues rnd 12\<rparr>)] \<and>
         snd (decodeFunction dec st'
               (fr\<lparr>data := take (nat off) (data fr) @ ct @ getRandomValues rnd 12\<rparr>)) =
           Async [Enqueue fr]"
proof -
  let ?iv = "getRandomValues rnd 12"
  let ?env = "fr\<lparr>data := take (nat off) (data fr) @ ct @ ?iv\<rparr>"
  have nonneg: "0 \<le> off" by (rule cryptoOffset_nonneg[OF off])
  have 1: "snd (encodeFunction enc rnd st fr) = Async [Enqueue ?env]"
    by (simp add: encodeFunction_keyed[OF key off] enc on_settled_def)
  have off': "cryptoOffset st' (type ?env) = Some off"
    using off flag by (simp add: cryptoOffset_def)
  have split: "decode_split (data ?env) (Some off) = (take (nat off) (data fr), ct, ?iv)"
    using decode_split_envelope[OF nonneg long length_getRandomValues] by simp
  have "snd (decodeFunction dec st' ?env) =
          Async [Enqueue (?env\<lparr>data := take (nat off) (data fr) @ drop (nat off) (data fr)\<rparr>)]"
    unfolding decodeFunction_keyed[OF key'] off' split by (simp add: dec on_settled_def)
  then have 2: "snd (decodeFunction dec st' ?env) = Async [Enqueue fr]" by simp
  from 1 2 show ?thesis by blast
qed

theorem roundtrip_witness:
  "currentCryptoKey keyed_state = Some example_key \<and>
   cryptoOffset keyed_state (type video_frame) = Some 10 \<and>
   10 \<le> int (length (data video_frame)) \<and>
   mock_encrypt example_key (getRandomValues counting 12) (drop (nat 10) (data video_frame)) =
     Some ([84, 85] @ replicate 16 96) \<and>
   mock_decrypt example_key (getRandomValues counting 12) ([84, 85] @ replicate 16 96) =
     Some (drop (nat 10) (data video_frame)) \<and>
   snd (decodeFunction mock_decrypt keyed_state
          (video_frame\<lparr>data := [1, 2, 3, 4, 5, 6, 7, 8, 9, 10] @
             ([84, 85] @ replicate 16 96) @ [0, 1, 2, 3, 4, 5, 6, 7, 8, 9, 10, 11]\<rparr>)) =
     Async [Enqueue video_frame]"
proof -
  have 1: "currentCryptoKey keyed_state = Some example_key"
    by (simp add: example_defs)
  have 2: "cryptoOffset keyed_state (type video_frame) = Some 10"
    by (simp add: example_defs cryptoOffset_def)
  have 3: "10 \<le> int (length (data video_frame))"
    by (simp add: video_frame_def)
  have 4: "mock_encrypt example_key (getRandomValues counting 12)
             (drop (nat 10) (data video_frame)) = Some ([84, 85] @ replicate 16 96)"
    by (simp add: counting_iv video_frame_def example_key_def mock_defs)
  have 5: "mock_decrypt example_key (getRandomValues counting 12) ([84, 85] @ replicate 16 96) =
             Some (drop (nat 10) (data video_frame))"
    by (simp add: counting_iv video_frame_def example_key_def mock_defs)
  have 6: "take (nat 10) (data video_frame) = [1, 2, 3, 4, 5, 6, 7, 8, 9, 10]"
    by (simp add: video_frame_def)
  show ?thesis
    using roundtrip[where st = keyed_state and st' = keyed_state and k = example_key
        and fr = video_frame and off = 10 and enc = mock_encrypt and dec = mock_decrypt
        and rnd = counting and ct = "[84, 85] @ replicate 16 96"] 1 2 3 4 5 6
    by (simp add: counting_iv)
qed

text \<open>
  C1 as stated fails for a payload shorter than the header length. A key frame of four
  bytes is encrypted to an envelope of 32 bytes; decoding it takes the first ten bytes as
  header and hands the primitive the ten bytes that follow, which is less than a tag, so
  the promise is rejected and no frame comes out. It also fails for the type \<open>empty\<close>,
  whose offset is undefined: both slices of the encoder are the whole payload, the
  decoder takes the whole envelope as header, and for a frame without data the decoder
  enqueues the 28-byte envelope in place of the empty payload.
\<close>

theorem roundtrip_counterexample:
  "snd (encodeFunction mock_encrypt counting keyed_state short_key_frame) =
     Async [Enqueue short_key_envelope] \<and>
   decode_split (data short_key_envelope) (Some 10) =
     ([1, 2, 3, 4] @ replicate 6 73, replicate 10 73,
      [0, 1, 2, 3, 4, 5, 6, 7, 8, 9, 10, 11]) \<and>
   snd (decodeFunction mock_decrypt keyed_state short_key_envelope) = Async [] \<and>
   snd (encodeFunction mock_encrypt counting keyed_state empty_frame) =
     Async [Enqueue empty_envelope] \<and>
   snd (decodeFunction mock_decrypt keyed_state empty_envelope) =
     Async [Enqueue empty_envelope]"
  by (simp add: example_defs transform_defs mock_defs upt_rec)

text \<open>
  The failure does not depend on the primitive: whatever \<open>decodeFunction\<close> enqueues for
  such an envelope starts with a header of \<open>off\<close> bytes, more than the payload had.
\<close>

lemma short_payload_never_returns:
  assumes key: "currentCryptoKey st = Some k"
      and off: "cryptoOffset st (type fr) = Some off"
      and short: "int (length (data fr)) < off"
      and env: "snd (encodeFunction enc rnd st fr) = Async [Enqueue env]"
  shows "snd (decodeFunction dec st env) \<noteq> Async [Enqueue fr]"
proof
  assume returned: "snd (decodeFunction dec st env) = Async [Enqueue fr]"
  let ?iv = "getRandomValues rnd 12"
  have nonneg: "0 \<le> off" by (rule cryptoOffset_nonneg[OF off])
  have le10: "off \<le> 10" by (rule cryptoOffset_le_10[OF off])
  from env obtain ct where
    envd: "env = fr\<lparr>data := take (nat off) (data fr) @ ct @ ?iv\<rparr>"
    by (auto simp add: encodeFunction_keyed[OF key off] on_settled_def split: option.splits)
  have ty: "type env = type fr" by (simp add: envd)
  have len_env: "nat off \<le> length (data env)"
    using le10 nonneg by (simp add: envd length_getRandomValues)
  obtain h c n where sp: "decode_split (data env) (Some off) = (h, c, n)"
    by (cases "decode_split (data env) (Some off)") auto
  then have h: "h = take (nat off) (data env)"
    using nonneg by (simp add: decode_split_def slice_prefix)
  from returned obtain r where "fr = env\<lparr>data := h @ r\<rparr>"
    unfolding decodeFunction_keyed[OF key] ty off sp
    by (auto simp add: on_settled_def split: option.splits)
  then have "data fr = h @ r" by simp
  then have "nat off \<le> length (data fr)" using h len_env by simp
  with short nonneg show False by simp
qed

section \<open>Key installation\<close>

lemma keeps_key_epoch_encode: "keeps_key_epoch (encode_stream enc)"
  by (simp add: keeps_key_epoch_def encode_stream_def encodeFunction_globals key_epoch_def)

lemma keeps_key_epoch_decode: "keeps_key_epoch (decode_stream dec)"
  by (simp add: keeps_key_epoch_def decode_stream_def decodeFunction_globals key_epoch_def)

lemma setCryptoKey_epoch:
  "currentKeyIdentifier (setCryptoKey supplied flag st) =
     (case (supplied, currentCryptoKey st) of
        (None, None) \<Rightarrow> currentKeyIdentifier st
      | _ \<Rightarrow> currentKeyIdentifier st + 1)"
  by (simp add: setCryptoKey_def split: option.split)

lemma step_epoch_mono:
  assumes "keeps_key_epoch tf"
  shows "currentKeyIdentifier (globals s) \<le> currentKeyIdentifier (globals (step tf s ev))"
proof (cases ev)
  case (Chunk fr rnd)
  have "globals (step tf s ev) = fst (tf rnd (globals s) fr)"
    unfolding Chunk by (rule step_chunk_globals)
  moreover have "key_epoch (fst (tf rnd (globals s) fr)) = key_epoch (globals s)"
    using assms by (simp add: keeps_key_epoch_def)
  ultimately show ?thesis by (simp add: key_epoch_def)
next
  case (Settle i)
  then show ?thesis by simp
next
  case (Message supplied flag)
  then show ?thesis by (simp add: setCryptoKey_epoch split: option.split)
next
  case (KeyGenerated r)
  then show ?thesis by (simp add: key_generated_def split: option.split)
qed

lemma run_epoch_mono:
  assumes "keeps_key_epoch tf"
  shows "currentKeyIdentifier (globals s) \<le> currentKeyIdentifier (globals (run tf evs s))"
proof (induction evs arbitrary: s)
  case Nil
  then show ?case by (simp add: run_def)
next
  case (Cons ev evs)
  have "currentKeyIdentifier (globals s) \<le> currentKeyIdentifier (globals (step tf s ev))"
    by (rule step_epoch_mono[OF assms])
  also have "\<dots> \<le> currentKeyIdentifier (globals (run tf evs (step tf s ev)))"
    by (rule Cons.IH)
  finally show ?case by (simp add: run_def)
qed

text \<open>
  C2 (as the code has it). The key identifier starts at 0. A \<open>setCryptoKey\<close> message
  adds one to it when the supplied value is not identical to the current key, that is,
  whenever a value is supplied or a key is already installed, and leaves it alone when
  both are undefined; it sets the offset flag and does not touch the current key. The
  key is assigned later, when key generation settles, and is the generated key; a
  rejected generation only logs. Along any run of a stream the identifier never
  decreases.
\<close>

theorem install_key_epoch:
  "currentKeyIdentifier initial_state = 0 \<and>
   (supplied \<noteq> None \<longrightarrow>
      currentKeyIdentifier (setCryptoKey supplied flag st) = currentKeyIdentifier st + 1) \<and>
   (currentCryptoKey st \<noteq> None \<longrightarrow>
      currentKeyIdentifier (setCryptoKey supplied flag st) = currentKeyIdentifier st + 1) \<and>
   (supplied = None \<and> currentCryptoKey st = None \<longrightarrow>
      currentKeyIdentifier (setCryptoKey supplied flag st) = currentKeyIdentifier st) \<and>
   currentCryptoKey (setCryptoKey supplied flag st) = currentCryptoKey st \<and>
   useCryptoOffset (setCryptoKey supplied flag st) = flag \<and>
   key_generated (Some k) st = (st\<lparr>currentCryptoKey := Some k\<rparr>, []) \<and>
   key_generated None st = (st, [ConsoleError]) \<and>
   currentKeyIdentifier (globals s) \<le>
     currentKeyIdentifier (globals (run (encode_stream enc) evs s)) \<and>
   currentKeyIdentifier (globals s) \<le>
     currentKeyIdentifier (globals (run (decode_stream dec) evs s))"
proof -
  have "currentKeyIdentifier initial_state = 0" by (simp add: initial_state_def)
  moreover have "supplied \<noteq> None \<longrightarrow>
      currentKeyIdentifier (setCryptoKey supplied flag st) = currentKeyIdentifier st + 1"
    by (auto simp add: setCryptoKey_epoch split: option.split)
  moreover have "currentCryptoKey st \<noteq> None \<longrightarrow>
      currentKeyIdentifier (setCryptoKey supplied flag st) = currentKeyIdentifier st + 1"
    by (auto simp add: setCryptoKey_epoch split: option.split)
  moreover have "supplied = None \<and> currentCryptoKey st = None \<longrightarrow>
      currentKeyIdentifier (setCryptoKey supplied flag st) = currentKeyIdentifier st"
    by (simp add: setCryptoKey_epoch)
  moreover have "useCryptoOffset (setCryptoKey supplied flag st) = flag"
    by (simp add: setCryptoKey_def)
  moreover note setCryptoKey_key[of supplied flag st]
    run_epoch_mono[OF keeps_key_epoch_encode, of s enc evs]
    run_epoch_mono[OF keeps_key_epoch_decode, of s dec evs]
  ultimately show ?thesis by (simp add: key_generated_def)
qed

theorem install_key_epoch_witness:
  "Some ''secret'' \<noteq> None \<and> currentCryptoKey keyed_state \<noteq> None \<and>
   currentCryptoKey initial_state = None \<and>
   currentKeyIdentifier (setCryptoKey (Some ''secret'') False initial_state) = 1 \<and>
   currentKeyIdentifier (setCryptoKey None False keyed_state) = 1 \<and>
   currentKeyIdentifier (setCryptoKey None False initial_state) = 0"
  using install_key_epoch[of "Some ''secret''" False initial_state]
    install_key_epoch[of None False keyed_state]
    install_key_epoch[of None False initial_state]
  by (simp add: example_defs)

text \<open>
  C2 as stated fails. A message without key material on a fresh worker leaves the
  identifier at 0 although a key is then generated and installed; after a message that
  supplies \<open>secret\<close> the identifier is 1 while the key is still undefined; and the key
  installed afterwards is the generated one whatever was supplied.
\<close>

theorem install_key_counterexample:
  "currentKeyIdentifier (setCryptoKey None True initial_state) = 0 \<and>
   key_epoch (setCryptoKey (Some ''secret'') True initial_state) = (None, 1, True) \<and>
   key_epoch (globals (run (encode_stream mock_encrypt)
       [Message (Some ''secret'') True, KeyGenerated (Some example_key)] (start initial_state))) =
     (Some (CryptoKey [7]), 1, True) \<and>
   key_epoch (globals (run (encode_stream mock_encrypt)
       [Message (Some ''other'') True, KeyGenerated (Some example_key)] (start initial_state))) =
     (Some (CryptoKey [7]), 1, True) \<and>
   key_epoch (globals (run (encode_stream mock_encrypt)
       [Message None True, KeyGenerated (Some example_key)] (start initial_state))) =
     (Some (CryptoKey [7]), 0, True)"
  by (simp add: example_defs setCryptoKey_def key_epoch_def run_def start_def key_generated_def)


section \<open>Envelopes too short for header and nonce\<close>

lemma mock_decrypt_rejects_below_tag: "rejects_below_tag mock_decrypt"
  by (simp add: rejects_below_tag_def mock_decrypt_def)




lemma decode_split_short:
  assumes "0 \<le> off" "int (length buf) < off + 12"
  shows "length (fst (snd (decode_split buf (Some off)))) < 12"
  using slice_short[OF assms] by (simp add: decode_split_def)

text \<open>
  C3 (as the code has it). \<open>decodeFunction\<close> has no length check and no error of its
  own. For an envelope shorter than \<open>off + 12\<close> the clamped slices leave fewer than 12
  bytes of ciphertext, so a primitive that rejects anything shorter than its tag rejects
  the call: the transform returns normally and nothing is ever enqueued. For an envelope
  of at least \<open>off + 12\<close> bytes the slices are the first \<open>off\<close> bytes as header, the last
  12 bytes as iv and what lies between as ciphertext; \<open>decodeFunction\<close> hands the
  primitive that ciphertext under that iv, enqueues the header followed by the result
  when the primitive fulfils, and enqueues nothing when it rejects.
\<close>

theorem decode_short_or_split:
  assumes key: "currentCryptoKey st = Some k"
      and off: "cryptoOffset st (type fr) = Some off"
      and rej: "rejects_below_tag dec"
  shows "(int (length (data fr)) < off + 12 \<longrightarrow>
            length (fst (snd (decode_split (data fr) (Some off)))) < 12 \<and>
            decodeFunction dec st fr = (st\<lparr>rcount := rcount st + 1\<rparr>, Async [])) \<and>
         (off + 12 \<le> int (length (data fr)) \<longrightarrow>
            decode_split (data fr) (Some off) =
              (take (nat off) (data fr),
               take (length (data fr) - 12 - nat off) (drop (nat off) (data fr)),
               drop (length (data fr) - 12) (data fr)) \<and>
            decodeFunction dec st fr =
              (st\<lparr>rcount := rcount st + 1\<rparr>,
               Async (on_settled
                 (dec k (drop (length (data fr) - 12) (data fr))
                    (take (length (data fr) - 12 - nat off) (drop (nat off) (data fr))))
                 (\<lambda>result. [Enqueue (fr\<lparr>data := take (nat off) (data fr) @ result\<rparr>)]))) \<and>
            (dec k (drop (length (data fr) - 12) (data fr))
                (take (length (data fr) - 12 - nat off) (drop (nat off) (data fr))) = Some body \<longrightarrow>
               decodeFunction dec st fr =
                 (st\<lparr>rcount := rcount st + 1\<rparr>,
                  Async [Enqueue (fr\<lparr>data := take (nat off) (data fr) @ body\<rparr>)])) \<and>
            (dec k (drop (length (data fr) - 12) (data fr))
                (take (length (data fr) - 12 - nat off) (drop (nat off) (data fr))) = None \<longrightarrow>
               decodeFunction dec st fr = (st\<lparr>rcount := rcount st + 1\<rparr>, Async [])))"
proof -
  let ?ct = "take (length (data fr) - 12 - nat off) (drop (nat off) (data fr))"
  let ?iv = "drop (length (data fr) - 12) (data fr)"
  let ?st' = "st\<lparr>rcount := rcount st + 1\<rparr>"
  have nonneg: "0 \<le> off" by (rule cryptoOffset_nonneg[OF off])
  have short: "decodeFunction dec st fr = (?st', Async [])"
    if "int (length (data fr)) < off + 12"
  proof -
    obtain h c n where sp: "decode_split (data fr) (Some off) = (h, c, n)"
      by (cases "decode_split (data fr) (Some off)") auto
    have "length c < 12" using decode_split_short[OF nonneg that] sp by simp
    then have "dec k n c = None" using rej by (simp add: rejects_below_tag_def)
    then show ?thesis
      unfolding decodeFunction_keyed[OF key] off sp by (simp add: on_settled_def)
  qed
  have long: "decodeFunction dec st fr =
        (?st', Async (on_settled (dec k ?iv ?ct)
           (\<lambda>result. [Enqueue (fr\<lparr>data := take (nat off) (data fr) @ result\<rparr>)])))"
    if "off + 12 \<le> int (length (data fr))"
    unfolding decodeFunction_keyed[OF key] off decode_split_long[OF nonneg that] by simp
  have fulfilled: "decodeFunction dec st fr =
        (?st', Async [Enqueue (fr\<lparr>data := take (nat off) (data fr) @ body\<rparr>)])"
    if "off + 12 \<le> int (length (data fr))" "dec k ?iv ?ct = Some body"
    using long[OF that(1)] that(2) by (simp add: on_settled_def)
  have rejected: "decodeFunction dec st fr = (?st', Async [])"
    if "off + 12 \<le> int (length (data fr))" "dec k ?iv ?ct = None"
    using long[OF that(1)] that(2) by (simp add: on_settled_def)
  show ?thesis
    using short decode_split_short[OF nonneg] decode_split_long[OF nonneg] long fulfilled
      rejected
    by blast
qed

theorem decode_short_or_split_witness:
  "currentCryptoKey keyed_state = Some example_key \<and>
   cryptoOffset keyed_state (type truncated_frame) = Some 1 \<and>
   cryptoOffset keyed_state (type video_envelope) = Some 10 \<and>
   cryptoOffset keyed_state (type tampered_envelope) = Some 10 \<and>
   rejects_below_tag mock_decrypt \<and>
   int (length (data truncated_frame)) < 1 + 12 \<and>
   decodeFunction mock_decrypt keyed_state truncated_frame =
     (keyed_state\<lparr>rcount := rcount keyed_state + 1\<rparr>, Async []) \<and>
   10 + 12 \<le> int (length (data video_envelope)) \<and>
   decode_split (data video_envelope) (Some 10) =
     ([1, 2, 3, 4, 5, 6, 7, 8, 9, 10], [84, 85] @ replicate 16 96,
      [0, 1, 2, 3, 4, 5, 6, 7, 8, 9, 10, 11]) \<and>
   mock_decrypt example_key [0, 1, 2, 3, 4, 5, 6, 7, 8, 9, 10, 11]
      ([84, 85] @ replicate 16 96) = Some [11, 12] \<and>
   decodeFunction mock_decrypt keyed_state video_envelope =
     (keyed_state\<lparr>rcount := rcount keyed_state + 1\<rparr>, Async [Enqueue video_frame]) \<and>
   10 + 12 \<le> int (length (data tampered_envelope)) \<and>
   mock_decrypt example_key [0, 1, 2, 3, 4, 5, 6, 7, 8, 9, 10, 11]
      ([84, 86] @ replicate 16 96) = None \<and>
   decodeFunction mock_decrypt keyed_state tampered_envelope =
     (keyed_state\<lparr>rcount := rcount keyed_state + 1\<rparr>, Async [])"
proof -
  have 1: "currentCryptoKey keyed_state = Some example_key"
    by (simp add: example_defs)
  have 2: "cryptoOffset keyed_state (type truncated_frame) = Some 1"
    by (simp add: example_defs truncated_frame_def cryptoOffset_def)
  have 3: "cryptoOffset keyed_state (type video_envelope) = Some 10"
    by (simp add: example_defs video_envelope_def cryptoOffset_def)
  have 4: "cryptoOffset keyed_state (type tampered_envelope) = Some 10"
    by (simp add: example_defs tampered_envelope_def cryptoOffset_def)
  have 5: "int (length (data truncated_frame)) < 1 + 12"
    by (simp add: truncated_frame_def)
  have 6: "10 + 12 \<le> int (length (data video_envelope))"
    "10 + 12 \<le> int (length (data tampered_envelope))"
    by (simp_all add: video_envelope_def tampered_envelope_def video_frame_def)
  have 7: "mock_decrypt example_key [0, 1, 2, 3, 4, 5, 6, 7, 8, 9, 10, 11]
      ([84, 85] @ replicate 16 96) = Some [11, 12]"
    by (simp add: example_key_def mock_defs)
  have 8: "mock_decrypt example_key [0, 1, 2, 3, 4, 5, 6, 7, 8, 9, 10, 11]
      ([84, 86] @ replicate 16 96) = None"
    by (simp add: example_key_def mock_defs)
  have 9: "video_frame\<lparr>data := [1, 2, 3, 4, 5, 6, 7, 8, 9, 10] @ [11, 12]\<rparr> = video_frame"
    by (simp add: video_frame_def)
  show ?thesis
    using decode_short_or_split[OF 1 2 mock_decrypt_rejects_below_tag]
      decode_short_or_split[OF 1 3 mock_decrypt_rejects_below_tag, where body = "[11, 12]"]
      decode_short_or_split[OF 1 4 mock_decrypt_rejects_below_tag]
      1 2 3 4 5 6 7 8 9 mock_decrypt_rejects_below_tag
    by (simp add: video_envelope_def tampered_envelope_def on_settled_def)
qed

text \<open>
  C3 as stated fails. An untyped envelope of 8 bytes (fewer than 1 + 12) is split all the
  same, into one header byte, three bytes handed to the primitive as ciphertext and
  four as iv; the outcome is the rejected promise that a corrupted envelope of full
  length gives as well, not a distinct malformed-frame error.
\<close>

theorem malformed_frame_counterexample:
  "int (length (data truncated_frame)) < 1 + 12 \<and>
   decode_split (data truncated_frame) (cryptoOffset keyed_state (type truncated_frame)) =
     ([1], [2, 3, 4], [5, 6, 7, 8]) \<and>
   decodeFunction mock_decrypt keyed_state truncated_frame =
     (keyed_state\<lparr>rcount := 1\<rparr>, Async []) \<and>
   decodeFunction mock_decrypt keyed_state tampered_envelope =
     (keyed_state\<lparr>rcount := 1\<rparr>, Async [])"
  by (simp add: example_defs truncated_frame_def tampered_envelope_def transform_defs mock_defs)

section \<open>Failures of the primitive\<close>

lemma settle_rejected:
  assumes "tf rnd (globals s) fr = (st', Async [])"
  shows "run tf (Chunk fr rnd # Settle (length (outstanding s)) # evs) s =
         run tf evs (s\<lparr>globals := st'\<rparr>)"
  using assms by (simp add: run_def)

text \<open>
  C6 (as the code has it). When the primitive rejects the ciphertext of a frame,
  \<open>decodeFunction\<close> returns normally and its callback never runs: nothing is enqueued and
  nothing else is done, in particular nothing is reported. Once that promise has
  settled the stream is as if the frame had only been counted, so the events that
  follow are processed as usual.
\<close>

theorem authentication_failure_drops:
  assumes key: "currentCryptoKey (globals s) = Some k"
      and split: "decode_split (data fr) (cryptoOffset (globals s) (type fr)) = (h, c, n)"
      and auth: "dec k n c = None"
  shows "decodeFunction dec (globals s) fr =
           ((globals s)\<lparr>rcount := rcount (globals s) + 1\<rparr>, Async []) \<and>
         run (decode_stream dec) (Chunk fr rnd # Settle (length (outstanding s)) # evs) s =
           run (decode_stream dec) evs
             (s\<lparr>globals := (globals s)\<lparr>rcount := rcount (globals s) + 1\<rparr>\<rparr>)"
proof -
  have d: "decodeFunction dec (globals s) fr =
           ((globals s)\<lparr>rcount := rcount (globals s) + 1\<rparr>, Async [])"
    unfolding decodeFunction_keyed[OF key] split by (simp add: auth on_settled_def)
  then have "decode_stream dec rnd (globals s) fr =
           ((globals s)\<lparr>rcount := rcount (globals s) + 1\<rparr>, Async [])"
    by (simp add: decode_stream_def)
  from settle_rejected[where tf = "decode_stream dec" and rnd = rnd and s = s and fr = fr, OF this] d
  show ?thesis by simp
qed

theorem authentication_failure_drops_witness:
  "currentCryptoKey (globals (start keyed_state)) = Some example_key \<and>
   decode_split (data tampered_envelope)
       (cryptoOffset (globals (start keyed_state)) (type tampered_envelope)) =
     ([1, 2, 3, 4, 5, 6, 7, 8, 9, 10], [84, 86] @ replicate 16 96,
      [0, 1, 2, 3, 4, 5, 6, 7, 8, 9, 10, 11]) \<and>
   mock_decrypt example_key [0, 1, 2, 3, 4, 5, 6, 7, 8, 9, 10, 11]
       ([84, 86] @ replicate 16 96) = None \<and>
   performed (run (decode_stream mock_decrypt)
       [Chunk tampered_envelope counting, Settle 0, Chunk video_envelope counting, Settle 0]
       (start keyed_state)) = [Enqueue video_frame]"
proof -
  have 1: "currentCryptoKey (globals (start keyed_state)) = Some example_key"
    by (simp add: start_def example_defs)
  have 2: "decode_split (data tampered_envelope)
       (cryptoOffset (globals (start keyed_state)) (type tampered_envelope)) =
     ([1, 2, 3, 4, 5, 6, 7, 8, 9, 10], [84, 86] @ replicate 16 96,
      [0, 1, 2, 3, 4, 5, 6, 7, 8, 9, 10, 11])"
    by (simp add: start_def example_defs cryptoOffset_def decode_split_def slice_def
        relative_index_def)
  have 3: "mock_decrypt example_key [0, 1, 2, 3, 4, 5, 6, 7, 8, 9, 10, 11]
       ([84, 86] @ replicate 16 96) = None"
    by (simp add: example_key_def mock_defs)
  have 4: "performed (run (decode_stream mock_decrypt)
       [Chunk video_envelope counting, Settle 0]
       (start keyed_state\<lparr>globals := (globals (start keyed_state))
          \<lparr>rcount := rcount (globals (start keyed_state)) + 1\<rparr>\<rparr>)) = [Enqueue video_frame]"
    by (simp add: loop_defs example_defs transform_defs mock_defs)
  have 5: "length (outstanding (start keyed_state)) = 0"
    by (simp add: start_def)
  show ?thesis
    using authentication_failure_drops[where s = "start keyed_state" and k = example_key
        and fr = tampered_envelope and dec = mock_decrypt and rnd = counting
        and evs = "[Chunk video_envelope counting, Settle 0]", OF 1 2 3] 1 2 3 4 5
    by simp
qed

text \<open>
  C6 as stated fails on the report: decoding a corrupted envelope and letting the
  promise settle leaves the stream with an empty list of performed actions, so neither
  a frame nor a failure report has gone anywhere.
\<close>

theorem authentication_failure_counterexample:
  "run (decode_stream mock_decrypt) [Chunk tampered_envelope counting, Settle 0] (start keyed_state) =
     start (keyed_state\<lparr>rcount := 1\<rparr>) \<and>
   performed (start (keyed_state\<lparr>rcount := 1\<rparr>)) = []"
  by (simp add: loop_defs example_defs transform_defs mock_defs)

text \<open>
  C8 (as the code has it). With a key installed, \<open>encodeFunction\<close> enqueues the envelope
  exactly when the primitive fulfils. When the primitive rejects, the transform has
  already returned normally, nothing is enqueued (so no plaintext either) and nothing
  is passed on to the caller: once the promise has settled the stream is as if the
  frame had only been counted.
\<close>

theorem encryption_failure_drops:
  assumes key: "currentCryptoKey (globals s) = Some k"
      and split: "encode_split (data fr) (cryptoOffset (globals s) (type fr)) = (h, b)"
  shows "(enc k (getRandomValues rnd 12) b = None \<longrightarrow>
            encodeFunction enc rnd (globals s) fr =
              ((globals s)\<lparr>scount := scount (globals s) + 1\<rparr>, Async []) \<and>
            run (encode_stream enc) (Chunk fr rnd # Settle (length (outstanding s)) # evs) s =
              run (encode_stream enc) evs
                (s\<lparr>globals := (globals s)\<lparr>scount := scount (globals s) + 1\<rparr>\<rparr>)) \<and>
         (enc k (getRandomValues rnd 12) b = Some ct \<longrightarrow>
            encodeFunction enc rnd (globals s) fr =
              ((globals s)\<lparr>scount := scount (globals s) + 1\<rparr>,
               Async [Enqueue (fr\<lparr>data := h @ ct @ getRandomValues rnd 12\<rparr>)]))"
proof -
  have e: "encodeFunction enc rnd (globals s) fr =
      ((globals s)\<lparr>scount := scount (globals s) + 1\<rparr>,
       Async (on_settled (enc k (getRandomValues rnd 12) b)
         (\<lambda>result. [Enqueue (fr\<lparr>data := h @ result @ getRandomValues rnd 12\<rparr>)])))"
    using key split by (simp add: encodeFunction_def Let_def)
  have "run (encode_stream enc) (Chunk fr rnd # Settle (length (outstanding s)) # evs) s =
        run (encode_stream enc) evs
          (s\<lparr>globals := (globals s)\<lparr>scount := scount (globals s) + 1\<rparr>\<rparr>)"
    if "enc k (getRandomValues rnd 12) b = None"
  proof -
    have "encode_stream enc rnd (globals s) fr =
            ((globals s)\<lparr>scount := scount (globals s) + 1\<rparr>, Async [])"
      using e that by (simp add: encode_stream_def on_settled_def)
    from settle_rejected[where tf = "encode_stream enc" and rnd = rnd and s = s and fr = fr, OF this]
    show ?thesis .
  qed
  then show ?thesis using e by (simp add: on_settled_def)
qed

theorem encryption_failure_drops_witness:
  "currentCryptoKey (globals (start keyed_state)) = Some example_key \<and>
   encode_split (data video_frame)
       (cryptoOffset (globals (start keyed_state)) (type video_frame)) =
     ([1, 2, 3, 4, 5, 6, 7, 8, 9, 10], [11, 12]) \<and>
   rejecting example_key (getRandomValues counting 12) [11, 12] = None \<and>
   mock_encrypt example_key (getRandomValues counting 12) [11, 12] =
     Some ([84, 85] @ replicate 16 96) \<and>
   run (encode_stream rejecting) [Chunk video_frame counting, Settle 0] (start keyed_state) =
     start (keyed_state\<lparr>scount := 1\<rparr>) \<and>
   encodeFunction mock_encrypt counting keyed_state video_frame =
     (keyed_state\<lparr>scount := 1\<rparr>, Async [Enqueue video_envelope])"
proof -
  have 1: "currentCryptoKey (globals (start keyed_state)) = Some example_key"
    by (simp add: start_def example_defs)
  have 2: "encode_split (data video_frame)
       (cryptoOffset (globals (start keyed_state)) (type video_frame)) =
     ([1, 2, 3, 4, 5, 6, 7, 8, 9, 10], [11, 12])"
    by (simp add: start_def example_defs cryptoOffset_def encode_split_def slice_def
        relative_index_def)
  have 3: "rejecting example_key (getRandomValues counting 12) [11, 12] = None"
    by (simp add: rejecting_def)
  have 4: "mock_encrypt example_key (getRandomValues counting 12) [11, 12] =
     Some ([84, 85] @ replicate 16 96)"
    by (simp add: counting_iv example_key_def mock_defs)
  have 5: "globals (start keyed_state) = keyed_state" "outstanding (start keyed_state) = []"
    "start keyed_state\<lparr>globals := keyed_state\<lparr>scount := scount keyed_state + 1\<rparr>\<rparr> =
       start (keyed_state\<lparr>scount := 1\<rparr>)"
    by (simp_all add: start_def example_defs)
  have 6: "scount keyed_state = 0"
    by (simp add: example_defs)
  show ?thesis
    using encryption_failure_drops[where s = "start keyed_state" and k = example_key
        and fr = video_frame and enc = rejecting and rnd = counting and evs = "[]"
        and ct = "[]", OF 1 2]
      encryption_failure_drops[where s = "start keyed_state" and k = example_key
        and fr = video_frame and enc = mock_encrypt and rnd = counting and evs = "[]"
        and ct = "[84, 85] @ replicate 16 96", OF 1 2]
      1 2 3 4 5 6
    by (simp add: run_def video_envelope_def counting_iv)
qed

text \<open>
  C8 as stated fails on the propagation: with a primitive that rejects, the call returns
  as for any other frame, and after the promise has settled the stream is in a state
  with nothing performed and nothing outstanding.
\<close>

theorem encryption_failure_counterexample:
  "encodeFunction rejecting counting keyed_state video_frame =
     (keyed_state\<lparr>scount := 1\<rparr>, Async []) \<and>
   run (encode_stream rejecting) [Chunk video_frame counting, Settle 0] (start keyed_state) =
     start (keyed_state\<lparr>scount := 1\<rparr>) \<and>
   performed (start (keyed_state\<lparr>scount := 1\<rparr>)) = []"
  by (simp add: loop_defs example_defs transform_defs rejecting_def)

section \<open>Order of emission\<close>

lemma sync_only_encode: "sync_only_without_key (encode_stream enc)"
  by (auto simp add: sync_only_without_key_def encode_stream_def encodeFunction_def Let_def
      split: option.split prod.split)

lemma sync_only_decode: "sync_only_without_key (decode_stream dec)"
  by (auto simp add: sync_only_without_key_def decode_stream_def decodeFunction_def Let_def
      split: option.split prod.split)

lemma step_in_order:
  assumes tf: "sync_only_without_key tf" and inv: "settled_before_sync s" and ord: "in_order [ev]"
  shows "settled_before_sync (step tf s ev) \<and>
         results (step tf s ev) = results s @ yields tf s [ev]"
proof (cases ev)
  case (Chunk fr rnd)
  obtain st' r where t: "tf rnd (globals s) fr = (st', r)" by (cases "tf rnd (globals s) fr") auto
  from tf have k: "currentCryptoKey (fst (tf rnd (globals s) fr)) = currentCryptoKey (globals s)"
    and c: "(case snd (tf rnd (globals s) fr) of Sync as \<Rightarrow> currentCryptoKey (globals s) = None
                | Async as \<Rightarrow> currentCryptoKey (globals s) \<noteq> None)"
    by (simp_all add: sync_only_without_key_def)
  show ?thesis
  proof (cases r)
    case (Sync as)
    with c t have "currentCryptoKey (globals s) = None" by simp
    with inv have "outstanding s = []" by (simp add: settled_before_sync_def)
    then show ?thesis using Chunk t Sync
      by (simp add: settled_before_sync_def results_def enqueued_append)
  next
    case (Async as)
    with c t have "currentCryptoKey (globals s) \<noteq> None" by simp
    with k t have "currentCryptoKey st' \<noteq> None" by simp
    then show ?thesis using Chunk t Async
      by (simp add: settled_before_sync_def results_def enqueued_append)
  qed
next
  case (Settle i)
  with ord have i: "i = 0" by simp
  show ?thesis
  proof (cases "outstanding s")
    case Nil
    then show ?thesis using Settle i inv by simp
  next
    case (Cons a rest)
    then show ?thesis using Settle i inv
      by (auto simp add: settled_before_sync_def results_def enqueued_append)
  qed
next
  case (Message supplied flag)
  then show ?thesis using inv
    by (simp add: settled_before_sync_def results_def setCryptoKey_key)
next
  case (KeyGenerated r)
  then show ?thesis using inv
    by (cases r) (auto simp add: settled_before_sync_def results_def key_generated_def enqueued_append)
qed

lemma run_in_order:
  assumes tf: "sync_only_without_key tf"
  shows "settled_before_sync s \<Longrightarrow> in_order evs \<Longrightarrow>
         results (run tf evs s) = results s @ yields tf s evs"
proof (induction evs arbitrary: s)
  case Nil
  then show ?case by (simp add: run_def)
next
  case (Cons ev evs)
  from Cons.prems(2) have ev: "in_order [ev]" and evs: "in_order evs"
    by (cases ev; simp)+
  from step_in_order[OF tf Cons.prems(1) ev]
  have inv: "settled_before_sync (step tf s ev)"
    and res: "results (step tf s ev) = results s @ yields tf s [ev]" by simp_all
  have "results (run tf evs (step tf s ev)) = results (step tf s ev) @ yields tf (step tf s ev) evs"
    by (rule Cons.IH[OF inv evs])
  moreover have "yields tf s (ev # evs) = yields tf s [ev] @ yields tf (step tf s ev) evs"
    by (cases ev) simp_all
  ultimately show ?case using res by (simp add: run_def)
qed

text \<open>
  C9 (as the code has it). The transforms return no promise, so the stream does not wait
  for a cipher operation and a frame is enqueued when its own operation settles. If the
  operations settle in the order in which they were started, the frames handed
  downstream followed by those still to come are the transformed frames in submission
  order; once nothing is outstanding, the frames handed downstream are exactly those.
\<close>

theorem order_when_settled_in_order:
  assumes "tf = encode_stream enc \<or> tf = decode_stream dec" and "in_order evs"
  shows "results (run tf evs (start st)) = yields tf (start st) evs \<and>
         (outstanding (run tf evs (start st)) = [] \<longrightarrow>
            enqueued (performed (run tf evs (start st))) = yields tf (start st) evs)"
proof -
  have tf: "sync_only_without_key tf"
    using assms(1) sync_only_encode sync_only_decode by blast
  have inv: "settled_before_sync (start st)"
    by (simp add: settled_before_sync_def start_def)
  have r0: "results (start st) = []"
    by (simp add: results_def start_def)
  have "results (run tf evs (start st)) = yields tf (start st) evs"
    using run_in_order[OF tf inv assms(2)] r0 by simp
  then show ?thesis by (auto simp add: results_def)
qed

theorem order_when_settled_in_order_witness:
  "in_order [Chunk video_frame counting, Chunk audio_frame counting, Settle 0,
             Chunk short_delta_frame counting, Settle 0, Settle 0] \<and>
   outstanding (run (encode_stream mock_encrypt)
      [Chunk video_frame counting, Chunk audio_frame counting, Settle 0,
       Chunk short_delta_frame counting, Settle 0, Settle 0] (start keyed_state)) = [] \<and>
   enqueued (performed (run (encode_stream mock_encrypt)
      [Chunk video_frame counting, Chunk audio_frame counting, Settle 0,
       Chunk short_delta_frame counting, Settle 0, Settle 0] (start keyed_state))) =
     yields (encode_stream mock_encrypt) (start keyed_state)
      [Chunk video_frame counting, Chunk audio_frame counting, Settle 0,
       Chunk short_delta_frame counting, Settle 0, Settle 0] \<and>
   map timestamp (enqueued (performed (run (encode_stream mock_encrypt)
      [Chunk video_frame counting, Chunk audio_frame counting, Settle 0,
       Chunk short_delta_frame counting, Settle 0, Settle 0] (start keyed_state)))) =
     [100, 200, 400]"
proof -
  let ?evs = "[Chunk video_frame counting, Chunk audio_frame counting, Settle 0,
               Chunk short_delta_frame counting, Settle 0, Settle 0]"
  have 1: "in_order ?evs" by simp
  have 2: "outstanding (run (encode_stream mock_encrypt) ?evs (start keyed_state)) = []"
    by (simp add: loop_defs example_defs transform_defs mock_defs upt_rec)
  have 3: "map timestamp (enqueued (performed
             (run (encode_stream mock_encrypt) ?evs (start keyed_state)))) = [100, 200, 400]"
    by (simp add: loop_defs example_defs transform_defs mock_defs upt_rec)
  show ?thesis
    using order_when_settled_in_order[where tf = "encode_stream mock_encrypt"
        and enc = mock_encrypt and dec = mock_decrypt and evs = ?evs and st = keyed_state] 1 2 3
    by simp
qed

text \<open>
  C9 as stated fails: three frames submitted in the order 100, 200, 400 (by timestamp)
  whose operations settle third, first, second come out in the order 400, 100, 200.
\<close>

theorem order_counterexample:
  "map timestamp (chunks [Chunk video_frame counting, Chunk audio_frame counting,
       Chunk short_delta_frame counting, Settle 2, Settle 0, Settle 0]) = [100, 200, 400] \<and>
   map timestamp (enqueued (performed (run (encode_stream mock_encrypt)
      [Chunk video_frame counting, Chunk audio_frame counting,
       Chunk short_delta_frame counting, Settle 2, Settle 0, Settle 0] (start keyed_state)))) =
     [400, 100, 200]"
  by (simp add: loop_defs example_defs transform_defs mock_defs upt_rec)

end
